theory Spec2Isabelle
  imports Main
begin

section \<open>The heartbeat endpoint of aw-server (src/aw_server/api.py)\<close>

text \<open>
  The development embeds the heartbeat reduction path of \<^verbatim>\<open>ServerAPI\<close>: the lookup
  \<^verbatim>\<open>_last_event\<close> with its module-level \<^verbatim>\<open>last_event_cache\<close>, and the method
  \<^verbatim>\<open>heartbeat\<close> under its decorator \<^verbatim>\<open>check_bucket_exists\<close>.

  Conventions of the embedding.
  \<^item> Instants (\<^verbatim>\<open>datetime\<close>) and spans (\<^verbatim>\<open>timedelta\<close>) are integers counting
    microseconds, the resolution of both Python types.
  \<^item> Events are values: a store operation returns the event it stored and leaves the
    event it was given as it is. The module-level dictionary \<^verbatim>\<open>last_event_cache\<close> is a map
    passed in and returned by every function that touches it; it is returned on the
    error path as well, since a Python exception does not undo a mutation of a global.
  \<^item> A raised exception is the left injection of the result.
  \<^item> The wall clock read by \<^verbatim>\<open>datetime.now\<close> is the parameter \<open>now\<close>.
  \<^item> The datastore object \<^verbatim>\<open>self.db\<close> is a record of operations over an abstract
    store state, so that every statement holds for every datastore.
\<close>

subsection \<open>Data model\<close>

type_synonym time = int

text \<open>\<^verbatim>\<open>timedelta(seconds=n)\<close> for an integral number of seconds.\<close>

definition timedelta_seconds :: "int \<Rightarrow> time" where
  "timedelta_seconds n = n * 1000000"

text \<open>
  \<^verbatim>\<open>aw_core.models.Event\<close>: the field \<^verbatim>\<open>id\<close> is absent until a store assigns it. The
  type of \<^verbatim>\<open>data\<close> is left open, since the code only compares it with \<^verbatim>\<open>==\<close>.
\<close>

record 'd event =
  event_id :: "nat option"
  timestamp :: time
  duration :: time
  data :: 'd

datatype error =
    BadRequest string string
  | StoreError string

text \<open>\<^verbatim>\<open>last_event_cache = {}  # type: Dict[str, Event]\<close>\<close>

type_synonym 'd cache = "string \<rightharpoonup> 'd event"

text \<open>
  The operations the code calls on \<^verbatim>\<open>self.db\<close> and on \<^verbatim>\<open>self.db[bucket_id]\<close>:
  \<^verbatim>\<open>buckets()\<close>, \<^verbatim>\<open>get(limit, endtime)\<close>, \<^verbatim>\<open>insert(event)\<close> and
  \<^verbatim>\<open>replace(id, event)\<close>. Each may raise; the two writers return the new store state
  and the event the store reports back.
\<close>

record ('s, 'd) datastore =
  ds_buckets :: "'s \<Rightarrow> error + string list"
  ds_get :: "'s \<Rightarrow> string \<Rightarrow> int \<Rightarrow> time option \<Rightarrow> error + 'd event list"
  ds_insert :: "'s \<Rightarrow> string \<Rightarrow> 'd event \<Rightarrow> error + 's \<times> 'd event"
  ds_replace :: "'s \<Rightarrow> string \<Rightarrow> nat option \<Rightarrow> 'd event \<Rightarrow> error + 's \<times> 'd event"

subsection \<open>The lookup \<^verbatim>\<open>_last_event\<close>\<close>

text \<open>
  Lines 117 to 128: the probe of the cache. It returns the cache as the probe leaves it
  and the cached event if it is to be used.
\<close>

definition STALE_WINDOW :: time where
  "STALE_WINDOW = timedelta_seconds 60"

definition cache_probe :: "time \<Rightarrow> 'd cache \<Rightarrow> string \<Rightarrow> time \<Rightarrow> 'd cache \<times> 'd event option" where
  "cache_probe now cache bucket_id ts =
     (case cache bucket_id of
        None \<Rightarrow> (cache, None)
      | Some last_ev \<Rightarrow>
          if timestamp last_ev + duration last_ev < now - STALE_WINDOW
          then (cache(bucket_id := None), None)
          else if timestamp last_ev > ts then (cache, None)
          else (cache, Some last_ev))"

text \<open>
  Lines 130 to 137: the fallback to the store when the probe gave nothing. The guard
  \<^verbatim>\<open>len(events) >= 1\<close> protects the indexing \<^verbatim>\<open>events[0]\<close>.
\<close>

definition store_fallback ::
  "('s, 'd) datastore \<Rightarrow> 's \<Rightarrow> string \<Rightarrow> time \<Rightarrow> error + 'd event option" where
  "store_fallback db st bucket_id ts =
     (case ds_get db st bucket_id 1 (Some ts) of
        Inl e \<Rightarrow> Inl e
      | Inr events \<Rightarrow> Inr (if length events \<ge> 1 then Some (events ! 0) else None))"

definition last_event ::
  "('s, 'd) datastore \<Rightarrow> time \<Rightarrow> 'd cache \<Rightarrow> 's \<Rightarrow> string \<Rightarrow> time
     \<Rightarrow> 'd cache \<times> (error + 'd event option)" where
  "last_event db now cache st bucket_id ts =
     (case cache_probe now cache bucket_id ts of
        (cache', Some last_ev) \<Rightarrow> (cache', Inr (Some last_ev))
      | (cache', None) \<Rightarrow> (cache', store_fallback db st bucket_id ts))"

subsection \<open>The merge function\<close>

text \<open>
  Modelled from the spec: \<^verbatim>\<open>transforms.heartbeat_merge\<close> lives in the package
  \<^verbatim>\<open>aw_core\<close>, which is not among the sources. Section 4.2 of the specification: with
  \<open>lastEnd = lastEvent.timestamp + lastEvent.duration\<close>, the merge succeeds when
  \<open>heartbeat.timestamp \<le> lastEnd + pulseWindow\<close>; the result is the last event with
  \<open>duration = max(lastEnd, heartbeat.timestamp) - lastEvent.timestamp\<close>; otherwise there
  is no merge. The pulse window is a span in microseconds.
\<close>

definition heartbeat_merge :: "'d event \<Rightarrow> 'd event \<Rightarrow> time \<Rightarrow> 'd event option" where
  "heartbeat_merge last_ev hb pulsetime =
     (let last_end = timestamp last_ev + duration last_ev
      in if timestamp hb \<le> last_end + pulsetime
         then Some (last_ev\<lparr>duration := max last_end (timestamp hb) - timestamp last_ev\<rparr>)
         else None)"

subsection \<open>The handler \<^verbatim>\<open>heartbeat\<close>\<close>

text \<open>
  Lines 191 to 193, the tail shared by the three branches that do not merge: the value
  of \<^verbatim>\<open>insert\<close> is dropped, the heartbeat itself is cached and returned.
\<close>

definition insert_heartbeat ::
  "('s, 'd) datastore \<Rightarrow> 'd cache \<Rightarrow> 's \<Rightarrow> string \<Rightarrow> 'd event
     \<Rightarrow> 'd cache \<times> (error + 's \<times> 'd event)" where
  "insert_heartbeat db cache st bucket_id hb =
     (case ds_insert db st bucket_id hb of
        Inl e \<Rightarrow> (cache, Inl e)
      | Inr (st', stored) \<Rightarrow> (cache(bucket_id \<mapsto> hb), Inr (st', hb)))"

text \<open>Lines 181 to 183, the merge branch.\<close>

definition replace_merged ::
  "('s, 'd) datastore \<Rightarrow> 'd cache \<Rightarrow> 's \<Rightarrow> string \<Rightarrow> 'd event \<Rightarrow> 'd event
     \<Rightarrow> 'd cache \<times> (error + 's \<times> 'd event)" where
  "replace_merged db cache st bucket_id last_ev merged =
     (case ds_replace db st bucket_id (event_id last_ev) merged of
        Inl e \<Rightarrow> (cache, Inl e)
      | Inr (st', stored) \<Rightarrow> (cache(bucket_id \<mapsto> merged), Inr (st', merged)))"

text \<open>
  Lines 174 to 193, the body of \<^verbatim>\<open>heartbeat\<close>. The test \<^verbatim>\<open>if last_event:\<close> is the
  test for \<^verbatim>\<open>None\<close>: an event always carries its fields and so is never falsy.
\<close>

definition heartbeat_body ::
  "('s, 'd) datastore \<Rightarrow> time \<Rightarrow> 'd cache \<Rightarrow> 's \<Rightarrow> string \<Rightarrow> 'd event \<Rightarrow> time
     \<Rightarrow> 'd cache \<times> (error + 's \<times> 'd event)" where
  "heartbeat_body db now cache st bucket_id hb pulsetime =
     (case last_event db now cache st bucket_id (timestamp hb) of
        (cache', Inl e) \<Rightarrow> (cache', Inl e)
      | (cache', Inr None) \<Rightarrow> insert_heartbeat db cache' st bucket_id hb
      | (cache', Inr (Some last_ev)) \<Rightarrow>
          if data last_ev = data hb
          then (case heartbeat_merge last_ev hb pulsetime of
                  Some merged \<Rightarrow> replace_merged db cache' st bucket_id last_ev merged
                | None \<Rightarrow> insert_heartbeat db cache' st bucket_id hb)
          else insert_heartbeat db cache' st bucket_id hb)"

text \<open>The decorator \<^verbatim>\<open>check_bucket_exists\<close>, lines 22 to 28, applied to a body.\<close>

definition check_bucket_exists ::
  "('s, 'd) datastore \<Rightarrow> 's \<Rightarrow> string \<Rightarrow> 'c \<Rightarrow> ('c \<times> (error + 'r)) \<Rightarrow> 'c \<times> (error + 'r)" where
  "check_bucket_exists db st bucket_id cache f =
     (case ds_buckets db st of
        Inl e \<Rightarrow> (cache, Inl e)
      | Inr bs \<Rightarrow>
          if bucket_id \<notin> set bs
          then (cache, Inl (BadRequest ''NoSuchBucket'' (''There's no bucket named '' @ bucket_id)))
          else f)"

definition heartbeat ::
  "('s, 'd) datastore \<Rightarrow> time \<Rightarrow> 'd cache \<Rightarrow> 's \<Rightarrow> string \<Rightarrow> 'd event \<Rightarrow> time
     \<Rightarrow> 'd cache \<times> (error + 's \<times> 'd event)" where
  "heartbeat db now cache st bucket_id hb pulsetime =
     check_bucket_exists db st bucket_id cache
       (heartbeat_body db now cache st bucket_id hb pulsetime)"

text \<open>The precondition the decorator establishes for the body.\<close>

definition bucket_exists :: "('s, 'd) datastore \<Rightarrow> 's \<Rightarrow> string \<Rightarrow> bool" where
  "bucket_exists db st bucket_id =
     (case ds_buckets db st of Inl e \<Rightarrow> False | Inr bs \<Rightarrow> bucket_id \<in> set bs)"

subsection \<open>Serial submission of heartbeats to one bucket\<close>





subsection \<open>Two datastores to run the handler on\<close>

text \<open>
  Modelled from the spec: the event store (the package \<^verbatim>\<open>aw_datastore\<close>) is not among
  the sources. Section 6 of the specification: \<^verbatim>\<open>get\<close> returns the events of a bucket
  most recent first, bounded by an end time and a limit; \<^verbatim>\<open>insert\<close> assigns an identity
  if the event has none and returns the stored event; \<^verbatim>\<open>replace\<close> overwrites by
  identity and keeps the position. A store is an association list from bucket ids to
  the events of the bucket, kept most recent first.
\<close>

type_synonym 'd memstore = "(string \<times> 'd event list) list"

fun insert_desc :: "'d event \<Rightarrow> 'd event list \<Rightarrow> 'd event list" where
  "insert_desc e [] = [e]"
| "insert_desc e (x # xs) =
     (if timestamp x \<le> timestamp e then e # x # xs else x # insert_desc e xs)"

definition fresh_id :: "'d event list \<Rightarrow> nat" where
  "fresh_id evs =
     fold (\<lambda>e n. case event_id e of None \<Rightarrow> n | Some i \<Rightarrow> max n (Suc i)) evs 0"

fun set_bucket :: "string \<Rightarrow> 'd event list \<Rightarrow> 'd memstore \<Rightarrow> 'd memstore" where
  "set_bucket b evs [] = []"
| "set_bucket b evs ((k, v) # kvs) =
     (if k = b then (k, evs) # kvs else (k, v) # set_bucket b evs kvs)"

definition ms_buckets :: "'d memstore \<Rightarrow> error + string list" where
  "ms_buckets st = Inr (map fst st)"

definition ms_get :: "'d memstore \<Rightarrow> string \<Rightarrow> int \<Rightarrow> time option \<Rightarrow> error + 'd event list" where
  "ms_get st b limit endtime =
     (case map_of st b of
        None \<Rightarrow> Inl (StoreError ''NoSuchBucket'')
      | Some evs \<Rightarrow>
          Inr (let sel = filter (\<lambda>e. case endtime of None \<Rightarrow> True | Some t \<Rightarrow> timestamp e \<le> t) evs
               in if limit < 0 then sel else take (nat limit) sel))"

definition ms_insert :: "'d memstore \<Rightarrow> string \<Rightarrow> 'd event \<Rightarrow> error + 'd memstore \<times> 'd event" where
  "ms_insert st b e =
     (case map_of st b of
        None \<Rightarrow> Inl (StoreError ''NoSuchBucket'')
      | Some evs \<Rightarrow>
          (let stored = (case event_id e of
                           None \<Rightarrow> e\<lparr>event_id := Some (fresh_id evs)\<rparr>
                         | Some i \<Rightarrow> e)
           in Inr (set_bucket b (insert_desc stored evs) st, stored)))"

definition ms_replace ::
  "'d memstore \<Rightarrow> string \<Rightarrow> nat option \<Rightarrow> 'd event \<Rightarrow> error + 'd memstore \<times> 'd event" where
  "ms_replace st b eid e =
     (case map_of st b of
        None \<Rightarrow> Inl (StoreError ''NoSuchBucket'')
      | Some evs \<Rightarrow>
          if eid \<noteq> None \<and> list_ex (\<lambda>x. event_id x = eid) evs
          then Inr (set_bucket b (map (\<lambda>x. if event_id x = eid then e else x) evs) st, e)
          else Inl (StoreError ''NoSuchEvent''))"

definition memory_store :: "('d memstore, 'd) datastore" where
  "memory_store =
     \<lparr>ds_buckets = ms_buckets, ds_get = ms_get, ds_insert = ms_insert, ds_replace = ms_replace\<rparr>"

text \<open>
  A datastore that lists the given buckets and whose reads and writes all raise (the
  condition \<^verbatim>\<open>StoreUnavailable\<close> of section 7 of the specification).
\<close>

definition unavailable_store :: "string list \<Rightarrow> (unit, 'd) datastore" where
  "unavailable_store bs =
     \<lparr>ds_buckets = (\<lambda>st. Inr bs),
      ds_get = (\<lambda>st b limit endtime. Inl (StoreError ''StoreUnavailable'')),
      ds_insert = (\<lambda>st b e. Inl (StoreError ''StoreUnavailable'')),
      ds_replace = (\<lambda>st b eid e. Inl (StoreError ''StoreUnavailable''))\<rparr>"

text \<open>Heartbeats for the examples: data \<^verbatim>\<open>{"app": a}\<close> observed at second \<open>t\<close>.\<close>

type_synonym appdata = "(string \<times> string) list"

definition beat :: "int \<Rightarrow> string \<Rightarrow> appdata event" where
  "beat t a =
     \<lparr>event_id = None, timestamp = timedelta_seconds t, duration = 0, data = [(''app'', a)]\<rparr>"

subsection \<open>In-order submission\<close>



section \<open>Properties of the lookup and of the handler\<close>

subsection \<open>Unfolding sets and auxiliary facts\<close>

lemmas handler_defs =
  heartbeat_def check_bucket_exists_def heartbeat_body_def last_event_def cache_probe_def
  store_fallback_def heartbeat_merge_def insert_heartbeat_def replace_merged_def
  bucket_exists_def STALE_WINDOW_def timedelta_seconds_def

lemmas store_defs =
  memory_store_def ms_buckets_def ms_get_def ms_insert_def ms_replace_def fresh_id_def
  unavailable_store_def beat_def Let_def

lemma heartbeat_checked:
  "bucket_exists db st b \<Longrightarrow>
     heartbeat db now c st b hb p = heartbeat_body db now c st b hb p"
  by (simp add: bucket_exists_def heartbeat_def check_bucket_exists_def split: sum.splits)

lemma heartbeat_returns_checked:
  "heartbeat db now c st b hb p = (c', Inr r) \<Longrightarrow> bucket_exists db st b"
  by (simp add: bucket_exists_def heartbeat_def check_bucket_exists_def
      split: sum.splits if_splits)

lemma last_event_cache:
  "fst (last_event db now c st b ts) = fst (cache_probe now c b ts)"
  by (simp add: last_event_def split: prod.splits option.splits)

lemma last_event_result:
  "snd (last_event db now c st b ts) =
     (case snd (cache_probe now c b ts) of
        Some l \<Rightarrow> Inr (Some l)
      | None \<Rightarrow> store_fallback db st b ts)"
  by (simp add: last_event_def split: prod.splits option.splits)

lemma cache_probe_cache:
  "fst (cache_probe now c b ts) =
     (case c b of
        None \<Rightarrow> c
      | Some l \<Rightarrow> if timestamp l + duration l < now - STALE_WINDOW then c(b := None) else c)"
  by (simp add: cache_probe_def split: option.splits)

lemma body_insert_path:
  assumes "last_event db now c st b (timestamp hb) = (c1, Inr cand)"
    and "\<forall>l. cand = Some l \<longrightarrow> data l = data hb \<longrightarrow> heartbeat_merge l hb p = None"
  shows "heartbeat_body db now c st b hb p = insert_heartbeat db c1 st b hb"
  using assms by (cases cand) (auto simp: heartbeat_body_def split: option.splits)

lemma body_merge_path:
  assumes "last_event db now c st b (timestamp hb) = (c1, Inr (Some l))"
    and "data l = data hb" and "heartbeat_merge l hb p = Some m"
  shows "heartbeat_body db now c st b hb p = replace_merged db c1 st b l m"
  using assms by (simp add: heartbeat_body_def)

lemma body_error_cases:
  assumes "heartbeat_body db now c st b hb p = (c', Inl e)"
  shows "c' = fst (cache_probe now c b (timestamp hb)) \<and>
         (ds_get db st b 1 (Some (timestamp hb)) = Inl e
          \<or> ds_insert db st b hb = Inl e
          \<or> (\<exists>l m. heartbeat_merge l hb p = Some m \<and> ds_replace db st b (event_id l) m = Inl e))"
proof -
  obtain c1 r where le: "last_event db now c st b (timestamp hb) = (c1, r)"
    by (cases "last_event db now c st b (timestamp hb)")
  have c1: "c1 = fst (cache_probe now c b (timestamp hb))"
    using last_event_cache [of db now c st b "timestamp hb"] le by simp
  show ?thesis
  proof (cases r)
    case (Inl e')
    with le assms have "c' = c1" "e' = e" by (simp_all add: heartbeat_body_def)
    moreover have "store_fallback db st b (timestamp hb) = Inl e'"
      using le Inl by (auto simp: last_event_def split: prod.splits option.splits)
    then have "ds_get db st b 1 (Some (timestamp hb)) = Inl e'"
      by (simp add: store_fallback_def split: sum.splits)
    ultimately show ?thesis using c1 by simp
  next
    case (Inr cand)
    show ?thesis
    proof (cases "\<exists>l m. cand = Some l \<and> data l = data hb \<and> heartbeat_merge l hb p = Some m")
      case True
      then obtain l m where lm: "cand = Some l" "data l = data hb" "heartbeat_merge l hb p = Some m"
        by blast
      have "heartbeat_body db now c st b hb p = replace_merged db c1 st b l m"
        using body_merge_path [of db now c st b hb c1 l p m] le Inr lm by simp
      with assms have "c' = c1 \<and> ds_replace db st b (event_id l) m = Inl e"
        by (auto simp: replace_merged_def split: sum.splits prod.splits)
      with lm c1 show ?thesis by blast
    next
      case False
      then have "\<forall>l. cand = Some l \<longrightarrow> data l = data hb \<longrightarrow> heartbeat_merge l hb p = None"
        by (cases cand) auto
      then have "heartbeat_body db now c st b hb p = insert_heartbeat db c1 st b hb"
        using body_insert_path [of db now c st b hb c1 cand p] le Inr by simp
      with assms have "c' = c1 \<and> ds_insert db st b hb = Inl e"
        by (auto simp: insert_heartbeat_def split: sum.splits prod.splits)
      with c1 show ?thesis by blast
    qed
  qed
qed




text \<open>
  The result of the handler on its two paths, in terms of the store operation it calls.
\<close>

lemma insert_path_result:
  assumes "bucket_exists db st b"
    and "last_event db now c st b (timestamp hb) = (c1, Inr cand)"
    and "\<forall>l. cand = Some l \<longrightarrow> data l = data hb \<longrightarrow> heartbeat_merge l hb p = None"
  shows "heartbeat db now c st b hb p
       = (case ds_insert db st b hb of
            Inl e \<Rightarrow> (c1, Inl e)
          | Inr (st', stored) \<Rightarrow> (c1(b \<mapsto> hb), Inr (st', hb)))"
  using heartbeat_checked [OF assms(1), of now c hb p]
    body_insert_path [OF assms(2) assms(3)]
  by (simp add: insert_heartbeat_def)

lemma merge_path_result:
  assumes "bucket_exists db st b"
    and "last_event db now c st b (timestamp hb) = (c1, Inr (Some l))"
    and "data l = data hb" and "heartbeat_merge l hb p = Some m"
  shows "heartbeat db now c st b hb p
       = (case ds_replace db st b (event_id l) m of
            Inl e \<Rightarrow> (c1, Inl e)
          | Inr (st', stored) \<Rightarrow> (c1(b \<mapsto> m), Inr (st', m)))"
  using heartbeat_checked [OF assms(1), of now c hb p]
    body_merge_path [OF assms(2) assms(3) assms(4)]
  by (simp add: replace_merged_def)







subsection \<open>The insert path\<close>


subsection \<open>The merge decision\<close>

text \<open>
  Claim C3. For a last event and a heartbeat with equal data, the merge succeeds exactly
  when the heartbeat's timestamp is at most the end of the last event plus the pulse
  window. On success the result keeps the identity, the timestamp and the data of the
  last event, and its duration is the later of the last event's end and the heartbeat's
  timestamp, minus the last event's timestamp. In the handler, for a last event found
  with equal data: inside the window it calls \<^verbatim>\<open>replace\<close> with the identity of the last
  event and the merged event; outside the window it calls \<^verbatim>\<open>insert\<close> with the
  heartbeat, a new event. The merge function is the one modelled from the specification;
  the handler is the one of the source.
\<close>

theorem merge_window_decides_path:
  assumes "data l = data hb"
  shows "(heartbeat_merge l hb p \<noteq> None) = (timestamp hb \<le> timestamp l + duration l + p)
     \<and> (\<forall>m. heartbeat_merge l hb p = Some m \<longrightarrow>
            event_id m = event_id l \<and> timestamp m = timestamp l \<and> data m = data l
            \<and> duration m = max (timestamp l + duration l) (timestamp hb) - timestamp l)
     \<and> (bucket_exists db st b \<longrightarrow>
          last_event db now c st b (timestamp hb) = (c1, Inr (Some l)) \<longrightarrow>
          heartbeat db now c st b hb p
            = (if timestamp hb \<le> timestamp l + duration l + p
               then (case ds_replace db st b (event_id l)
                            (l\<lparr>duration := max (timestamp l + duration l) (timestamp hb)
                                            - timestamp l\<rparr>) of
                       Inl e \<Rightarrow> (c1, Inl e)
                     | Inr (st', stored) \<Rightarrow>
                         (c1(b \<mapsto> l\<lparr>duration := max (timestamp l + duration l) (timestamp hb)
                                                - timestamp l\<rparr>),
                          Inr (st', l\<lparr>duration := max (timestamp l + duration l) (timestamp hb)
                                                - timestamp l\<rparr>)))
               else (case ds_insert db st b hb of
                       Inl e \<Rightarrow> (c1, Inl e)
                     | Inr (st', stored) \<Rightarrow> (c1(b \<mapsto> hb), Inr (st', hb)))))"
proof -
  let ?m = "l\<lparr>duration := max (timestamp l + duration l) (timestamp hb) - timestamp l\<rparr>"
  have a: "(heartbeat_merge l hb p \<noteq> None) = (timestamp hb \<le> timestamp l + duration l + p)"
    by (simp add: heartbeat_merge_def Let_def)
  have b: "\<forall>m. heartbeat_merge l hb p = Some m \<longrightarrow>
            event_id m = event_id l \<and> timestamp m = timestamp l \<and> data m = data l
            \<and> duration m = max (timestamp l + duration l) (timestamp hb) - timestamp l"
    by (auto simp: heartbeat_merge_def Let_def split: if_splits)
  have c: "heartbeat db now c st b hb p
            = (if timestamp hb \<le> timestamp l + duration l + p
               then (case ds_replace db st b (event_id l) ?m of
                       Inl e \<Rightarrow> (c1, Inl e)
                     | Inr (st', stored) \<Rightarrow> (c1(b \<mapsto> ?m), Inr (st', ?m)))
               else (case ds_insert db st b hb of
                       Inl e \<Rightarrow> (c1, Inl e)
                     | Inr (st', stored) \<Rightarrow> (c1(b \<mapsto> hb), Inr (st', hb))))"
    if ex: "bucket_exists db st b"
      and le: "last_event db now c st b (timestamp hb) = (c1, Inr (Some l))"
  proof (cases "timestamp hb \<le> timestamp l + duration l + p")
    case True
    then have "heartbeat_merge l hb p = Some ?m" by (simp add: heartbeat_merge_def Let_def)
    from merge_path_result [OF ex le assms this] True show ?thesis by simp
  next
    case False
    then have "heartbeat_merge l hb p = None" by (simp add: heartbeat_merge_def Let_def)
    then have "\<forall>l'. Some l = Some l' \<longrightarrow> data l' = data hb \<longrightarrow> heartbeat_merge l' hb p = None"
      by simp
    from insert_path_result [OF ex le this] False show ?thesis by simp
  qed
  from a b c show ?thesis by blast
qed

text \<open>
  The witness follows the scenario of section 8 of the specification with a pulse window
  of five seconds: the heartbeat of second 103 is merged into the event of second 100
  and the store replaces it; the heartbeat of second 110 is outside the window and the
  store inserts it.
\<close>

theorem merge_window_decides_path_witness:
  "data ((beat 100 ''X'')\<lparr>event_id := Some 0\<rparr>) = data (beat 103 ''X'')
   \<and> timestamp (beat 103 ''X'')
        \<le> timestamp ((beat 100 ''X'')\<lparr>event_id := Some 0\<rparr>)
            + duration ((beat 100 ''X'')\<lparr>event_id := Some 0\<rparr>) + timedelta_seconds 5
   \<and> heartbeat_merge ((beat 100 ''X'')\<lparr>event_id := Some 0\<rparr>) (beat 103 ''X'') (timedelta_seconds 5)
       = Some ((beat 100 ''X'')\<lparr>event_id := Some 0, duration := timedelta_seconds 3\<rparr>)
   \<and> bucket_exists memory_store [(''b'', [(beat 100 ''X'')\<lparr>event_id := Some 0\<rparr>])] ''b''
   \<and> last_event memory_store (timedelta_seconds 103)
        (Map.empty(''b'' \<mapsto> (beat 100 ''X'')\<lparr>event_id := Some 0\<rparr>))
        [(''b'', [(beat 100 ''X'')\<lparr>event_id := Some 0\<rparr>])] ''b'' (timestamp (beat 103 ''X''))
       = (Map.empty(''b'' \<mapsto> (beat 100 ''X'')\<lparr>event_id := Some 0\<rparr>),
          Inr (Some ((beat 100 ''X'')\<lparr>event_id := Some 0\<rparr>)))
   \<and> heartbeat memory_store (timedelta_seconds 103)
        (Map.empty(''b'' \<mapsto> (beat 100 ''X'')\<lparr>event_id := Some 0\<rparr>))
        [(''b'', [(beat 100 ''X'')\<lparr>event_id := Some 0\<rparr>])] ''b''
        (beat 103 ''X'') (timedelta_seconds 5)
       = (Map.empty(''b'' \<mapsto> (beat 100 ''X'')\<lparr>event_id := Some 0, duration := timedelta_seconds 3\<rparr>),
          Inr ([(''b'', [(beat 100 ''X'')\<lparr>event_id := Some 0, duration := timedelta_seconds 3\<rparr>])],
               (beat 100 ''X'')\<lparr>event_id := Some 0, duration := timedelta_seconds 3\<rparr>))
   \<and> data ((beat 100 ''X'')\<lparr>event_id := Some 0, duration := timedelta_seconds 3\<rparr>)
       = data (beat 110 ''X'')
   \<and> \<not> timestamp (beat 110 ''X'')
        \<le> timestamp ((beat 100 ''X'')\<lparr>event_id := Some 0, duration := timedelta_seconds 3\<rparr>)
            + duration ((beat 100 ''X'')\<lparr>event_id := Some 0, duration := timedelta_seconds 3\<rparr>)
            + timedelta_seconds 5
   \<and> heartbeat_merge ((beat 100 ''X'')\<lparr>event_id := Some 0, duration := timedelta_seconds 3\<rparr>)
        (beat 110 ''X'') (timedelta_seconds 5) = None
   \<and> heartbeat memory_store (timedelta_seconds 110)
        (Map.empty(''b'' \<mapsto> (beat 100 ''X'')\<lparr>event_id := Some 0, duration := timedelta_seconds 3\<rparr>))
        [(''b'', [(beat 100 ''X'')\<lparr>event_id := Some 0, duration := timedelta_seconds 3\<rparr>])] ''b''
        (beat 110 ''X'') (timedelta_seconds 5)
       = (Map.empty(''b'' \<mapsto> beat 110 ''X''),
          Inr ([(''b'', [(beat 110 ''X'')\<lparr>event_id := Some 1\<rparr>,
                          (beat 100 ''X'')\<lparr>event_id := Some 0, duration := timedelta_seconds 3\<rparr>])],
               beat 110 ''X''))"
proof -
  let ?l = "(beat 100 ''X'')\<lparr>event_id := Some 0\<rparr>"
  let ?m = "(beat 100 ''X'')\<lparr>event_id := Some 0, duration := timedelta_seconds 3\<rparr>"
  let ?cl = "Map.empty(''b'' \<mapsto> ?l)"
  let ?cm = "Map.empty(''b'' \<mapsto> ?m)"
  have d1: "data ?l = data (beat 103 ''X'')" by (simp add: beat_def)
  have d2: "data ?m = data (beat 110 ''X'')" by (simp add: beat_def)
  have w1: "timestamp (beat 103 ''X'') \<le> timestamp ?l + duration ?l + timedelta_seconds 5"
    by (simp add: beat_def timedelta_seconds_def)
  have w2: "\<not> timestamp (beat 110 ''X'') \<le> timestamp ?m + duration ?m + timedelta_seconds 5"
    by (simp add: beat_def timedelta_seconds_def)
  have ex1: "bucket_exists memory_store [(''b'', [?l])] ''b''"
    by (simp add: handler_defs store_defs)
  have ex2: "bucket_exists memory_store [(''b'', [?m])] ''b''"
    by (simp add: handler_defs store_defs)
  have le1: "last_event memory_store (timedelta_seconds 103) ?cl [(''b'', [?l])] ''b''
       (timestamp (beat 103 ''X'')) = (?cl, Inr (Some ?l))"
    by (simp add: handler_defs store_defs)
  have le2: "last_event memory_store (timedelta_seconds 110) ?cm [(''b'', [?m])] ''b''
       (timestamp (beat 110 ''X'')) = (?cm, Inr (Some ?m))"
    by (simp add: handler_defs store_defs)
  note t1 = merge_window_decides_path [OF d1, where p = "timedelta_seconds 5" and db = memory_store
      and st = "[(''b'', [?l])]" and b = "''b''" and now = "timedelta_seconds 103"
      and c = ?cl and ?c1.0 = ?cl]
  note t2 = merge_window_decides_path [OF d2, where p = "timedelta_seconds 5" and db = memory_store
      and st = "[(''b'', [?m])]" and b = "''b''" and now = "timedelta_seconds 110"
      and c = ?cm and ?c1.0 = ?cm]
  have m1: "heartbeat_merge ?l (beat 103 ''X'') (timedelta_seconds 5) = Some ?m"
    by (simp add: handler_defs store_defs)
  have m2: "heartbeat_merge ?m (beat 110 ''X'') (timedelta_seconds 5) = None"
    using t2 w2 by blast
  have r1: "heartbeat memory_store (timedelta_seconds 103) ?cl [(''b'', [?l])] ''b''
        (beat 103 ''X'') (timedelta_seconds 5) = (?cm, Inr ([(''b'', [?m])], ?m))"
    using t1 ex1 le1 w1 by (simp add: store_defs timedelta_seconds_def)
  have r2: "heartbeat memory_store (timedelta_seconds 110) ?cm [(''b'', [?m])] ''b''
        (beat 110 ''X'') (timedelta_seconds 5)
       = (Map.empty(''b'' \<mapsto> beat 110 ''X''),
          Inr ([(''b'', [(beat 110 ''X'')\<lparr>event_id := Some 1\<rparr>, ?m])], beat 110 ''X''))"
    using t2 ex2 le2 w2 by (simp add: store_defs timedelta_seconds_def)
  from d1 w1 m1 ex1 le1 r1 d2 w2 m2 r2 show ?thesis by blast
qed

subsection \<open>Failures of the store\<close>

text \<open>
  Claim C4, as amended. In a call of the handler on an existing bucket, whenever the
  store operation the call performs fails (the fallback read when the probe of the cache
  gave nothing, \<^verbatim>\<open>replace\<close> on the merge path, \<^verbatim>\<open>insert\<close> on the insert path),
  the call fails with that same error and the handler writes no event into the cache:
  the cache after the call is the cache before it, except that an entry of the bucket
  that the lookup found stale has been evicted.
\<close>

theorem store_failure_propagates:
  assumes "bucket_exists db st b"
    and "last_event db now c st b (timestamp hb) = (c1, r)"
  shows "c1 = (case c b of
                 None \<Rightarrow> c
               | Some cached \<Rightarrow>
                   if timestamp cached + duration cached < now - timedelta_seconds 60
                   then c(b := None) else c)
     \<and> (\<forall>e. snd (cache_probe now c b (timestamp hb)) = None \<longrightarrow>
             ds_get db st b 1 (Some (timestamp hb)) = Inl e \<longrightarrow>
             heartbeat db now c st b hb p = (c1, Inl e))
     \<and> (\<forall>e l m. r = Inr (Some l) \<longrightarrow> data l = data hb \<longrightarrow>
             heartbeat_merge l hb p = Some m \<longrightarrow>
             ds_replace db st b (event_id l) m = Inl e \<longrightarrow>
             heartbeat db now c st b hb p = (c1, Inl e))
     \<and> (\<forall>e cand. r = Inr cand \<longrightarrow>
             (\<forall>l. cand = Some l \<longrightarrow> data l = data hb \<longrightarrow> heartbeat_merge l hb p = None) \<longrightarrow>
             ds_insert db st b hb = Inl e \<longrightarrow>
             heartbeat db now c st b hb p = (c1, Inl e))"
proof -
  have c1: "c1 = fst (cache_probe now c b (timestamp hb))"
    using last_event_cache [of db now c st b "timestamp hb"] assms(2) by simp
  have a: "c1 = (case c b of
                 None \<Rightarrow> c
               | Some cached \<Rightarrow>
                   if timestamp cached + duration cached < now - timedelta_seconds 60
                   then c(b := None) else c)"
    by (auto simp: c1 cache_probe_cache STALE_WINDOW_def split: option.splits)
  have g: "heartbeat db now c st b hb p = (c1, Inl e)"
    if "snd (cache_probe now c b (timestamp hb)) = None"
      and "ds_get db st b 1 (Some (timestamp hb)) = Inl e" for e
  proof -
    have "last_event db now c st b (timestamp hb) = (c1, Inl e)"
      using that c1
      by (cases "cache_probe now c b (timestamp hb)")
        (simp add: last_event_def store_fallback_def)
    then show ?thesis using heartbeat_checked [OF assms(1), of now c hb p]
      by (simp add: heartbeat_body_def)
  qed
  have rp: "heartbeat db now c st b hb p = (c1, Inl e)"
    if "r = Inr (Some l)" and "data l = data hb" and "heartbeat_merge l hb p = Some m"
      and "ds_replace db st b (event_id l) m = Inl e" for e l m
  proof -
    have le: "last_event db now c st b (timestamp hb) = (c1, Inr (Some l))"
      using assms(2) that(1) by simp
    from merge_path_result [OF assms(1) le that(2) that(3)] that(4) show ?thesis by simp
  qed
  have ins: "heartbeat db now c st b hb p = (c1, Inl e)"
    if "r = Inr cand"
      and "\<forall>l. cand = Some l \<longrightarrow> data l = data hb \<longrightarrow> heartbeat_merge l hb p = None"
      and "ds_insert db st b hb = Inl e" for e cand
  proof -
    have le: "last_event db now c st b (timestamp hb) = (c1, Inr cand)"
      using assms(2) that(1) by simp
    from insert_path_result [OF assms(1) le that(2)] that(3) show ?thesis by simp
  qed
  from a g rp ins show ?thesis by blast
qed

text \<open>
  The witness runs the three failures on a store that is unavailable: the read for an
  empty cache, \<^verbatim>\<open>replace\<close> for a heartbeat inside the window of the cached event, and
  \<^verbatim>\<open>insert\<close> for a heartbeat with other data. The cached entry is fresh and stays.
\<close>

theorem store_failure_propagates_witness:
  "bucket_exists (unavailable_store [''b''] :: (unit, appdata) datastore) () ''b''
   \<and> snd (cache_probe (timedelta_seconds 100) (Map.empty :: appdata cache) ''b''
          (timestamp (beat 100 ''X''))) = None
   \<and> ds_get (unavailable_store [''b'']) () ''b'' 1 (Some (timestamp (beat 100 ''X'')))
       = (Inl (StoreError ''StoreUnavailable'') :: error + appdata event list)
   \<and> heartbeat (unavailable_store [''b'']) (timedelta_seconds 100) Map.empty () ''b''
        (beat 100 ''X'') (timedelta_seconds 5)
       = (Map.empty, Inl (StoreError ''StoreUnavailable''))
   \<and> heartbeat_merge ((beat 100 ''X'')\<lparr>event_id := Some 0\<rparr>) (beat 110 ''X'') (timedelta_seconds 30)
       = Some ((beat 100 ''X'')\<lparr>event_id := Some 0, duration := timedelta_seconds 10\<rparr>)
   \<and> ds_replace (unavailable_store [''b'']) () ''b''
        (event_id ((beat 100 ''X'')\<lparr>event_id := Some 0\<rparr>))
        ((beat 100 ''X'')\<lparr>event_id := Some 0, duration := timedelta_seconds 10\<rparr>)
       = (Inl (StoreError ''StoreUnavailable'') :: error + unit \<times> appdata event)
   \<and> heartbeat (unavailable_store [''b'']) (timedelta_seconds 110)
        (Map.empty(''b'' \<mapsto> (beat 100 ''X'')\<lparr>event_id := Some 0\<rparr>)) () ''b''
        (beat 110 ''X'') (timedelta_seconds 30)
       = (Map.empty(''b'' \<mapsto> (beat 100 ''X'')\<lparr>event_id := Some 0\<rparr>),
          Inl (StoreError ''StoreUnavailable''))
   \<and> data ((beat 100 ''X'')\<lparr>event_id := Some 0\<rparr>) \<noteq> data (beat 110 ''Y'')
   \<and> ds_insert (unavailable_store [''b'']) () ''b'' (beat 110 ''Y'')
       = (Inl (StoreError ''StoreUnavailable'') :: error + unit \<times> appdata event)
   \<and> heartbeat (unavailable_store [''b'']) (timedelta_seconds 110)
        (Map.empty(''b'' \<mapsto> (beat 100 ''X'')\<lparr>event_id := Some 0\<rparr>)) () ''b''
        (beat 110 ''Y'') (timedelta_seconds 30)
       = (Map.empty(''b'' \<mapsto> (beat 100 ''X'')\<lparr>event_id := Some 0\<rparr>),
          Inl (StoreError ''StoreUnavailable''))"
proof -
  let ?db = "unavailable_store [''b''] :: (unit, appdata) datastore"
  let ?l = "(beat 100 ''X'')\<lparr>event_id := Some 0\<rparr>"
  let ?m = "(beat 100 ''X'')\<lparr>event_id := Some 0, duration := timedelta_seconds 10\<rparr>"
  let ?c = "Map.empty(''b'' \<mapsto> ?l)"
  let ?err = "StoreError ''StoreUnavailable''"
  have ex: "bucket_exists ?db () ''b''" by (simp add: handler_defs store_defs)
  have p0: "snd (cache_probe (timedelta_seconds 100) (Map.empty :: appdata cache) ''b''
          (timestamp (beat 100 ''X''))) = None"
    by (simp add: cache_probe_def)
  have g0: "ds_get ?db () ''b'' 1 (Some (timestamp (beat 100 ''X''))) = Inl ?err"
    by (simp add: store_defs)
  have le0: "last_event ?db (timedelta_seconds 100) Map.empty () ''b'' (timestamp (beat 100 ''X''))
       = (Map.empty, Inl ?err)"
    by (simp add: handler_defs store_defs)
  have leX: "last_event ?db (timedelta_seconds 110) ?c () ''b'' (timestamp (beat 110 ''X''))
       = (?c, Inr (Some ?l))"
    by (simp add: handler_defs store_defs)
  have leY: "last_event ?db (timedelta_seconds 110) ?c () ''b'' (timestamp (beat 110 ''Y''))
       = (?c, Inr (Some ?l))"
    by (simp add: handler_defs store_defs)
  have dX: "data ?l = data (beat 110 ''X'')" by (simp add: beat_def)
  have dY: "data ?l \<noteq> data (beat 110 ''Y'')" by (simp add: beat_def)
  have mX: "heartbeat_merge ?l (beat 110 ''X'') (timedelta_seconds 30) = Some ?m"
    by (simp add: handler_defs store_defs)
  have rX: "ds_replace ?db () ''b'' (event_id ?l) ?m = Inl ?err" by (simp add: store_defs)
  have iY: "ds_insert ?db () ''b'' (beat 110 ''Y'') = Inl ?err" by (simp add: store_defs)
  have nY: "\<forall>l'. Some ?l = Some l' \<longrightarrow> data l' = data (beat 110 ''Y'')
       \<longrightarrow> heartbeat_merge l' (beat 110 ''Y'') (timedelta_seconds 30) = None"
    using dY by simp
  have r0: "heartbeat ?db (timedelta_seconds 100) Map.empty () ''b''
        (beat 100 ''X'') (timedelta_seconds 5) = (Map.empty, Inl ?err)"
    using store_failure_propagates [OF ex le0, of "timedelta_seconds 5"] p0 g0 by blast
  have r1: "heartbeat ?db (timedelta_seconds 110) ?c () ''b''
        (beat 110 ''X'') (timedelta_seconds 30) = (?c, Inl ?err)"
    using store_failure_propagates [OF ex leX, of "timedelta_seconds 30"] dX mX rX by blast
  have r2: "heartbeat ?db (timedelta_seconds 110) ?c () ''b''
        (beat 110 ''Y'') (timedelta_seconds 30) = (?c, Inl ?err)"
    using store_failure_propagates [OF ex leY, of "timedelta_seconds 30"] nY iY by blast
  from ex p0 g0 r0 mX rX r1 dY iY r2 show ?thesis by blast
qed

text \<open>
  The cache is not left unmodified by every failing call. With a stale entry in the
  cache and a store whose read raises, the call fails and the entry is gone.
\<close>

theorem failed_call_evicts_counterexample:
  "snd (heartbeat (unavailable_store [''b'']) (timedelta_seconds 200)
          (Map.empty(''b'' \<mapsto> beat 100 ''X'')) () ''b'' (beat 200 ''X'') (timedelta_seconds 5))
     = Inl (StoreError ''StoreUnavailable'')
   \<and> fst (heartbeat (unavailable_store [''b'']) (timedelta_seconds 200)
          (Map.empty(''b'' \<mapsto> beat 100 ''X'')) () ''b'' (beat 200 ''X'') (timedelta_seconds 5)) ''b''
     = None
   \<and> (Map.empty(''b'' \<mapsto> beat 100 ''X'')) ''b'' = Some (beat 100 ''X'')"
  by (simp add: handler_defs store_defs)

subsection \<open>The guards of the lookup\<close>

text \<open>
  Claim C5. When the cache holds an entry for the bucket that is not stale and whose
  timestamp is strictly greater than the timestamp asked for, the lookup does not use
  the entry: its result is what the store returns for at most one event ending the
  range at that timestamp. The cache comes back unchanged, so the entry is not evicted.
\<close>

theorem newer_cached_entry_bypassed:
  assumes "c b = Some cached"
    and "\<not> timestamp cached + duration cached < now - timedelta_seconds 60"
    and "timestamp cached > ts"
  shows "last_event db now c st b ts
     = (c, case ds_get db st b 1 (Some ts) of
             Inl e \<Rightarrow> Inl e
           | Inr events \<Rightarrow> Inr (case events of [] \<Rightarrow> None | x # xs \<Rightarrow> Some x))"
  using assms
  by (auto simp: last_event_def cache_probe_def store_fallback_def STALE_WINDOW_def
      split: sum.splits list.splits)

theorem newer_cached_entry_bypassed_witness:
  "(Map.empty(''b'' \<mapsto> (beat 100 ''X'')\<lparr>event_id := Some 0\<rparr>)) ''b''
       = Some ((beat 100 ''X'')\<lparr>event_id := Some 0\<rparr>)
   \<and> \<not> timestamp ((beat 100 ''X'')\<lparr>event_id := Some 0\<rparr>)
          + duration ((beat 100 ''X'')\<lparr>event_id := Some 0\<rparr>)
        < timedelta_seconds 100 - timedelta_seconds 60
   \<and> timestamp ((beat 100 ''X'')\<lparr>event_id := Some 0\<rparr>) > timedelta_seconds 90
   \<and> last_event memory_store (timedelta_seconds 100)
        (Map.empty(''b'' \<mapsto> (beat 100 ''X'')\<lparr>event_id := Some 0\<rparr>))
        [(''b'', [(beat 100 ''X'')\<lparr>event_id := Some 0\<rparr>, (beat 80 ''Y'')\<lparr>event_id := Some 1\<rparr>])]
        ''b'' (timedelta_seconds 90)
       = (Map.empty(''b'' \<mapsto> (beat 100 ''X'')\<lparr>event_id := Some 0\<rparr>),
          Inr (Some ((beat 80 ''Y'')\<lparr>event_id := Some 1\<rparr>)))"
proof -
  let ?e = "(beat 100 ''X'')\<lparr>event_id := Some 0\<rparr>"
  let ?c = "Map.empty(''b'' \<mapsto> ?e)"
  have h1: "?c ''b'' = Some ?e" by simp
  have h2: "\<not> timestamp ?e + duration ?e < timedelta_seconds 100 - timedelta_seconds 60"
    by (simp add: beat_def timedelta_seconds_def)
  have h3: "timestamp ?e > timedelta_seconds 90"
    by (simp add: beat_def timedelta_seconds_def)
  from newer_cached_entry_bypassed [where c = ?c and b = "''b''" and db = memory_store
      and st = "[(''b'', [?e, (beat 80 ''Y'')\<lparr>event_id := Some 1\<rparr>])]", OF h1 h2 h3] h1 h2 h3
  show ?thesis by (simp add: store_defs timedelta_seconds_def)
qed

text \<open>
  Claim C6. When the end of the cached entry (timestamp plus duration) lies more than 60
  seconds before the wall-clock time of the call, whatever the timestamp asked for, the
  entry is removed from the cache and the result of the lookup is read from the store.
\<close>

theorem stale_entry_evicted:
  assumes "c b = Some cached"
    and "timestamp cached + duration cached < now - timedelta_seconds 60"
  shows "last_event db now c st b ts
     = (c(b := None), case ds_get db st b 1 (Some ts) of
             Inl e \<Rightarrow> Inl e
           | Inr events \<Rightarrow> Inr (case events of [] \<Rightarrow> None | x # xs \<Rightarrow> Some x))"
  using assms
  by (auto simp: last_event_def cache_probe_def store_fallback_def STALE_WINDOW_def
      split: sum.splits list.splits)

theorem stale_entry_evicted_witness:
  "(Map.empty(''b'' \<mapsto> (beat 100 ''X'')\<lparr>event_id := Some 0\<rparr>)) ''b''
       = Some ((beat 100 ''X'')\<lparr>event_id := Some 0\<rparr>)
   \<and> timestamp ((beat 100 ''X'')\<lparr>event_id := Some 0\<rparr>)
          + duration ((beat 100 ''X'')\<lparr>event_id := Some 0\<rparr>)
        < timedelta_seconds 161 - timedelta_seconds 60
   \<and> fst (last_event memory_store (timedelta_seconds 161)
        (Map.empty(''b'' \<mapsto> (beat 100 ''X'')\<lparr>event_id := Some 0\<rparr>))
        [(''b'', [(beat 100 ''X'')\<lparr>event_id := Some 0\<rparr>])]
        ''b'' (timedelta_seconds 161)) ''b'' = None
   \<and> snd (last_event memory_store (timedelta_seconds 161)
        (Map.empty(''b'' \<mapsto> (beat 100 ''X'')\<lparr>event_id := Some 0\<rparr>))
        [(''b'', [(beat 100 ''X'')\<lparr>event_id := Some 0\<rparr>])]
        ''b'' (timedelta_seconds 161))
       = Inr (Some ((beat 100 ''X'')\<lparr>event_id := Some 0\<rparr>))"
proof -
  let ?e = "(beat 100 ''X'')\<lparr>event_id := Some 0\<rparr>"
  let ?c = "Map.empty(''b'' \<mapsto> ?e)"
  have h1: "?c ''b'' = Some ?e" by simp
  have h2: "timestamp ?e + duration ?e < timedelta_seconds 161 - timedelta_seconds 60"
    by (simp add: beat_def timedelta_seconds_def)
  from stale_entry_evicted [where c = ?c and b = "''b''" and db = memory_store
      and st = "[(''b'', [?e])]" and ts = "timedelta_seconds 161", OF h1 h2] h1 h2
  show ?thesis by (simp add: store_defs timedelta_seconds_def)
qed

text \<open>
  Claim C7. Whenever the probe of the cache gives nothing, the lookup asks the store for
  at most one event (limit 1) of the bucket up to the timestamp asked for and returns
  the first event of the answer, or none. The lookup never adds or changes a cache
  entry: every entry after the lookup is the entry before it, or is absent.
\<close>

theorem fallback_reads_one_event:
  assumes "snd (cache_probe now c b ts) = None"
  shows "snd (last_event db now c st b ts)
       = (case ds_get db st b 1 (Some ts) of
            Inl e \<Rightarrow> Inl e
          | Inr events \<Rightarrow> Inr (case events of [] \<Rightarrow> None | x # xs \<Rightarrow> Some x))
     \<and> (\<forall>k. fst (last_event db now c st b ts) k = c k
            \<or> fst (last_event db now c st b ts) k = None)"
  using assms
  by (auto simp: last_event_def cache_probe_def store_fallback_def
      split: sum.splits list.splits option.splits if_splits)

text \<open>
  On the reference store the event found is the most recent one at or before the
  timestamp: of the events of seconds 100, 80 and 70, the lookup for second 90 finds the
  one of second 80.
\<close>

theorem fallback_reads_one_event_witness:
  "snd (cache_probe (timedelta_seconds 100) (Map.empty :: appdata cache) ''b'' (timedelta_seconds 90))
       = None
   \<and> snd (last_event memory_store (timedelta_seconds 100) Map.empty
        [(''b'', [(beat 100 ''X'')\<lparr>event_id := Some 0\<rparr>, (beat 80 ''Y'')\<lparr>event_id := Some 1\<rparr>,
                   (beat 70 ''Z'')\<lparr>event_id := Some 2\<rparr>])]
        ''b'' (timedelta_seconds 90))
       = Inr (Some ((beat 80 ''Y'')\<lparr>event_id := Some 1\<rparr>))
   \<and> fst (last_event memory_store (timedelta_seconds 100) Map.empty
        [(''b'', [(beat 100 ''X'')\<lparr>event_id := Some 0\<rparr>, (beat 80 ''Y'')\<lparr>event_id := Some 1\<rparr>,
                   (beat 70 ''Z'')\<lparr>event_id := Some 2\<rparr>])]
        ''b'' (timedelta_seconds 90)) ''b'' = None"
proof -
  have h: "snd (cache_probe (timedelta_seconds 100) (Map.empty :: appdata cache) ''b''
       (timedelta_seconds 90)) = None"
    by (simp add: cache_probe_def)
  from fallback_reads_one_event [OF h, of memory_store
      "[(''b'', [(beat 100 ''X'')\<lparr>event_id := Some 0\<rparr>, (beat 80 ''Y'')\<lparr>event_id := Some 1\<rparr>,
                   (beat 70 ''Z'')\<lparr>event_id := Some 2\<rparr>])]"] h
  show ?thesis by (auto simp: store_defs timedelta_seconds_def)
qed

subsection \<open>New events\<close>

text \<open>
  Claim C8. When the data of the heartbeat differs from the data of the last event
  found, the handler inserts the heartbeat whatever the pulse time and the timestamps
  are: its result is determined by \<^verbatim>\<open>insert\<close> alone, \<^verbatim>\<open>replace\<close> is not called.
  A heartbeat has duration zero at submission, so the event returned has duration zero.
\<close>

theorem differing_data_inserts:
  assumes "bucket_exists db st b"
    and "last_event db now c st b (timestamp hb) = (c1, Inr (Some l))"
    and "data l \<noteq> data hb"
    and "duration hb = 0"
  shows "heartbeat db now c st b hb p
       = (case ds_insert db st b hb of
            Inl e \<Rightarrow> (c1, Inl e)
          | Inr (st', stored) \<Rightarrow> (c1(b \<mapsto> hb), Inr (st', hb)))
     \<and> (\<forall>c' st' ev. heartbeat db now c st b hb p = (c', Inr (st', ev)) \<longrightarrow>
            ev = hb \<and> duration ev = 0)"
proof -
  have "\<forall>l'. Some l = Some l' \<longrightarrow> data l' = data hb \<longrightarrow> heartbeat_merge l' hb p = None"
    using assms(3) by simp
  from body_insert_path [OF assms(2) this] heartbeat_checked [OF assms(1), of now c hb p]
  have "heartbeat db now c st b hb p = insert_heartbeat db c1 st b hb" by simp
  then show ?thesis using assms(4)
    by (auto simp: insert_heartbeat_def split: sum.splits prod.splits)
qed

theorem differing_data_inserts_witness:
  "bucket_exists memory_store [(''b'', [(beat 100 ''X'')\<lparr>event_id := Some 0\<rparr>])] ''b''
   \<and> last_event memory_store (timedelta_seconds 101)
        (Map.empty(''b'' \<mapsto> (beat 100 ''X'')\<lparr>event_id := Some 0\<rparr>))
        [(''b'', [(beat 100 ''X'')\<lparr>event_id := Some 0\<rparr>])] ''b'' (timestamp (beat 101 ''Y''))
       = (Map.empty(''b'' \<mapsto> (beat 100 ''X'')\<lparr>event_id := Some 0\<rparr>),
          Inr (Some ((beat 100 ''X'')\<lparr>event_id := Some 0\<rparr>)))
   \<and> data ((beat 100 ''X'')\<lparr>event_id := Some 0\<rparr>) \<noteq> data (beat 101 ''Y'')
   \<and> duration (beat 101 ''Y'') = 0
   \<and> heartbeat memory_store (timedelta_seconds 101)
        (Map.empty(''b'' \<mapsto> (beat 100 ''X'')\<lparr>event_id := Some 0\<rparr>))
        [(''b'', [(beat 100 ''X'')\<lparr>event_id := Some 0\<rparr>])] ''b''
        (beat 101 ''Y'') (timedelta_seconds 5)
       = (Map.empty(''b'' \<mapsto> beat 101 ''Y''),
          Inr ([(''b'', [(beat 101 ''Y'')\<lparr>event_id := Some 1\<rparr>,
                          (beat 100 ''X'')\<lparr>event_id := Some 0\<rparr>])],
               beat 101 ''Y''))
   \<and> duration (beat 101 ''Y'') = 0"
proof -
  let ?e = "(beat 100 ''X'')\<lparr>event_id := Some 0\<rparr>"
  let ?c = "Map.empty(''b'' \<mapsto> ?e)"
  let ?st = "[(''b'', [?e])]"
  have h1: "bucket_exists memory_store ?st ''b''"
    by (simp add: handler_defs store_defs)
  have h2: "last_event memory_store (timedelta_seconds 101) ?c ?st ''b'' (timestamp (beat 101 ''Y''))
       = (?c, Inr (Some ?e))"
    by (simp add: handler_defs store_defs)
  have h3: "data ?e \<noteq> data (beat 101 ''Y'')" by (simp add: beat_def)
  have h4: "duration (beat 101 ''Y'') = 0" by (simp add: beat_def)
  from differing_data_inserts [OF h1 h2 h3 h4, of "timedelta_seconds 5"] h1 h2 h3 h4
  show ?thesis by (simp add: store_defs timedelta_seconds_def)
qed

text \<open>
  Claim C10. When the fallback is taken and the store has no event of the bucket at or
  before the heartbeat's timestamp, the lookup returns none as a value (the empty answer
  is not indexed) and the handler takes the insert path.
\<close>

theorem empty_bucket_inserts:
  assumes "bucket_exists db st b"
    and "snd (cache_probe now c b (timestamp hb)) = None"
    and "ds_get db st b 1 (Some (timestamp hb)) = Inr []"
  shows "snd (last_event db now c st b (timestamp hb)) = Inr None
     \<and> heartbeat db now c st b hb p
         = (case ds_insert db st b hb of
              Inl e \<Rightarrow> (fst (cache_probe now c b (timestamp hb)), Inl e)
            | Inr (st', stored) \<Rightarrow>
                ((fst (cache_probe now c b (timestamp hb)))(b \<mapsto> hb), Inr (st', hb)))"
proof -
  have le: "last_event db now c st b (timestamp hb)
      = (fst (cache_probe now c b (timestamp hb)), Inr None)"
    using assms(2,3)
    by (cases "cache_probe now c b (timestamp hb)") (simp add: last_event_def store_fallback_def)
  have "\<forall>l. (None :: 'b event option) = Some l \<longrightarrow> data l = data hb \<longrightarrow> heartbeat_merge l hb p = None"
    by simp
  from body_insert_path [OF le this] heartbeat_checked [OF assms(1), of now c hb p]
  have "heartbeat db now c st b hb p
      = insert_heartbeat db (fst (cache_probe now c b (timestamp hb))) st b hb" by simp
  then show ?thesis using le by (simp add: insert_heartbeat_def)
qed

text \<open>
  In the witness the only event of the bucket, which is also the cached one, is newer
  than the heartbeat.
\<close>

theorem empty_bucket_inserts_witness:
  "bucket_exists memory_store [(''b'', [(beat 100 ''X'')\<lparr>event_id := Some 0\<rparr>])] ''b''
   \<and> snd (cache_probe (timedelta_seconds 100)
        (Map.empty(''b'' \<mapsto> (beat 100 ''X'')\<lparr>event_id := Some 0\<rparr>)) ''b''
        (timestamp (beat 90 ''X''))) = None
   \<and> ds_get memory_store [(''b'', [(beat 100 ''X'')\<lparr>event_id := Some 0\<rparr>])] ''b'' 1
        (Some (timestamp (beat 90 ''X''))) = Inr []
   \<and> snd (last_event memory_store (timedelta_seconds 100)
        (Map.empty(''b'' \<mapsto> (beat 100 ''X'')\<lparr>event_id := Some 0\<rparr>))
        [(''b'', [(beat 100 ''X'')\<lparr>event_id := Some 0\<rparr>])] ''b'' (timestamp (beat 90 ''X'')))
       = Inr None
   \<and> heartbeat memory_store (timedelta_seconds 100)
        (Map.empty(''b'' \<mapsto> (beat 100 ''X'')\<lparr>event_id := Some 0\<rparr>))
        [(''b'', [(beat 100 ''X'')\<lparr>event_id := Some 0\<rparr>])] ''b''
        (beat 90 ''X'') (timedelta_seconds 30)
       = (Map.empty(''b'' \<mapsto> beat 90 ''X''),
          Inr ([(''b'', [(beat 100 ''X'')\<lparr>event_id := Some 0\<rparr>,
                          (beat 90 ''X'')\<lparr>event_id := Some 1\<rparr>])],
               beat 90 ''X''))"
proof -
  let ?e = "(beat 100 ''X'')\<lparr>event_id := Some 0\<rparr>"
  let ?c = "Map.empty(''b'' \<mapsto> ?e)"
  let ?st = "[(''b'', [?e])]"
  have h1: "bucket_exists memory_store ?st ''b''"
    by (simp add: handler_defs store_defs)
  have h2: "snd (cache_probe (timedelta_seconds 100) ?c ''b'' (timestamp (beat 90 ''X''))) = None"
    by (simp add: handler_defs store_defs)
  have h3: "ds_get memory_store ?st ''b'' 1 (Some (timestamp (beat 90 ''X''))) = Inr []"
    by (simp add: handler_defs store_defs)
  from empty_bucket_inserts [OF h1 h2 h3, of "timedelta_seconds 30"] h1 h2 h3
  show ?thesis by (simp add: handler_defs store_defs)
qed

subsection \<open>The cache after a call\<close>

text \<open>
  Claim C9. After every call of the handler that returns normally, the cache entry of
  the bucket is exactly the event the call returned: the merged event on the replace
  path, the submitted heartbeat on the insert path. Nothing in the hypothesis relates
  the heartbeat to the entry cached before, so the entry is overwritten also when the
  heartbeat is strictly older than it.
\<close>

theorem cache_holds_returned_event:
  assumes "heartbeat db now c st b hb p = (c', Inr (st', ev))"
  shows "c' b = Some ev \<and> (ev = hb \<or> (\<exists>l. heartbeat_merge l hb p = Some ev))"
proof -
  have ex: "bucket_exists db st b" using assms by (rule heartbeat_returns_checked)
  obtain c1 r where le: "last_event db now c st b (timestamp hb) = (c1, r)"
    by (cases "last_event db now c st b (timestamp hb)")
  have body: "heartbeat_body db now c st b hb p = (c', Inr (st', ev))"
    using assms heartbeat_checked [OF ex, of now c hb p] by simp
  then show ?thesis using le
    by (auto simp: heartbeat_body_def insert_heartbeat_def replace_merged_def
        split: sum.splits option.splits prod.splits if_splits)
qed

text \<open>
  The witness is an out-of-order call: the cache holds the event of second 100, the
  heartbeat is of second 90, and the call leaves the heartbeat in the cache.
\<close>

theorem cache_holds_returned_event_witness:
  "heartbeat memory_store (timedelta_seconds 100)
      (Map.empty(''b'' \<mapsto> (beat 100 ''X'')\<lparr>event_id := Some 0\<rparr>))
      [(''b'', [(beat 100 ''X'')\<lparr>event_id := Some 0\<rparr>])] ''b''
      (beat 90 ''Y'') (timedelta_seconds 10)
    = (Map.empty(''b'' \<mapsto> beat 90 ''Y''),
       Inr ([(''b'', [(beat 100 ''X'')\<lparr>event_id := Some 0\<rparr>, (beat 90 ''Y'')\<lparr>event_id := Some 1\<rparr>])],
            beat 90 ''Y''))
   \<and> (Map.empty(''b'' \<mapsto> beat 90 ''Y'')) ''b'' = Some (beat 90 ''Y'')
   \<and> (beat 90 ''Y'' = beat 90 ''Y''
        \<or> (\<exists>l. heartbeat_merge l (beat 90 ''Y'') (timedelta_seconds 10) = Some (beat 90 ''Y'')))"
proof -
  have h: "heartbeat memory_store (timedelta_seconds 100)
      (Map.empty(''b'' \<mapsto> (beat 100 ''X'')\<lparr>event_id := Some 0\<rparr>))
      [(''b'', [(beat 100 ''X'')\<lparr>event_id := Some 0\<rparr>])] ''b''
      (beat 90 ''Y'') (timedelta_seconds 10)
    = (Map.empty(''b'' \<mapsto> beat 90 ''Y''),
       Inr ([(''b'', [(beat 100 ''X'')\<lparr>event_id := Some 0\<rparr>, (beat 90 ''Y'')\<lparr>event_id := Some 1\<rparr>])],
            beat 90 ''Y''))"
    by (simp add: handler_defs store_defs)
  from cache_holds_returned_event [OF h] h show ?thesis by blast
qed

subsection \<open>Runs with and without the cache\<close>




end
